theory Spec2Isabelle
  imports Complex_Main
begin

section \<open>float64 values and arithmetic\<close>

text \<open>
  The coordinates and distances of the server are Go \<^verbatim>\<open>float64\<close> values. A value is a
  NaN, an infinity or a finite real; the two signed zeros are one value \<open>Fin 0\<close> (they
  compare equal and no operation of the program tells them apart) and all NaNs are one
  value. The result of every single operation (\<^verbatim>\<open>+\<close>, \<^verbatim>\<open>-\<close>, \<^verbatim>\<open>*\<close>, \<^verbatim>\<open>math.Sqrt\<close>) is
  the exact real result rounded to the nearest binary64 number, ties to even, and to an
  infinity on overflow; a product and a sum are not fused into one operation.
\<close>

datatype float64 = NaN | PInf | NInf | Fin real

text \<open>Round half to even, to an integer.\<close>

definition rhe :: "real \<Rightarrow> int" where
  "rhe t = (let f = \<lfloor>t\<rfloor>; r = t - of_int f in
     if r < 1/2 then f else if 1/2 < r then f + 1 else if even f then f else f + 1)"

text \<open>
  The exponent of the unit in the last place of a positive real: 52 below the binary
  exponent of the value, which is at least \<open>- 1022\<close> (below it the numbers are subnormal
  and the spacing stays \<open>2 powr - 1074\<close>).
\<close>

definition ulp_exp :: "real \<Rightarrow> int" where
  "ulp_exp x = max \<lfloor>log 2 x\<rfloor> (- 1022) - 52"

definition round_pos :: "real \<Rightarrow> real" where
  "round_pos x = of_int (rhe (x / 2 powr of_int (ulp_exp x))) * 2 powr of_int (ulp_exp x)"

definition round_real :: "real \<Rightarrow> real" where
  "round_real x = (if x = 0 then 0 else if 0 < x then round_pos x else - round_pos (- x))"

definition overflow_threshold :: real where
  "overflow_threshold = 2 ^ 1024"

definition rnd :: "real \<Rightarrow> float64" where
  "rnd x = (let y = round_real x in
     if overflow_threshold \<le> y then PInf
     else if y \<le> - overflow_threshold then NInf
     else Fin y)"

fun fneg :: "float64 \<Rightarrow> float64" where
  "fneg NaN = NaN"
| "fneg PInf = NInf"
| "fneg NInf = PInf"
| "fneg (Fin x) = Fin (- x)"

fun fadd :: "float64 \<Rightarrow> float64 \<Rightarrow> float64" where
  "fadd (Fin x) (Fin y) = rnd (x + y)"
| "fadd NaN b = NaN"
| "fadd a NaN = NaN"
| "fadd PInf NInf = NaN"
| "fadd NInf PInf = NaN"
| "fadd PInf b = PInf"
| "fadd NInf b = NInf"
| "fadd (Fin x) b = b"

definition fsub :: "float64 \<Rightarrow> float64 \<Rightarrow> float64" where
  "fsub a b = fadd a (fneg b)"

text \<open>The sign of an infinity times a finite factor; zero times infinity is NaN.\<close>

definition inf_times :: "bool \<Rightarrow> real \<Rightarrow> float64" where
  "inf_times positive x =
     (if x = 0 then NaN else if (0 < x) = positive then PInf else NInf)"

fun fmul :: "float64 \<Rightarrow> float64 \<Rightarrow> float64" where
  "fmul (Fin x) (Fin y) = rnd (x * y)"
| "fmul NaN b = NaN"
| "fmul a NaN = NaN"
| "fmul PInf PInf = PInf"
| "fmul PInf NInf = NInf"
| "fmul NInf PInf = NInf"
| "fmul NInf NInf = PInf"
| "fmul PInf (Fin y) = inf_times True y"
| "fmul NInf (Fin y) = inf_times False y"
| "fmul (Fin x) PInf = inf_times True x"
| "fmul (Fin x) NInf = inf_times False x"

fun fsqrt :: "float64 \<Rightarrow> float64" where
  "fsqrt NaN = NaN"
| "fsqrt PInf = PInf"
| "fsqrt NInf = NaN"
| "fsqrt (Fin x) = (if x < 0 then NaN else rnd (sqrt x))"

text \<open>The comparisons \<^verbatim>\<open><\<close> and \<^verbatim>\<open>==\<close>: every comparison with a NaN is false.\<close>

fun flt :: "float64 \<Rightarrow> float64 \<Rightarrow> bool" where
  "flt (Fin x) (Fin y) = (x < y)"
| "flt NaN b = False"
| "flt a NaN = False"
| "flt a NInf = False"
| "flt PInf b = False"
| "flt NInf b = True"
| "flt a PInf = True"

fun feq :: "float64 \<Rightarrow> float64 \<Rightarrow> bool" where
  "feq (Fin x) (Fin y) = (x = y)"
| "feq PInf PInf = True"
| "feq NInf NInf = True"
| "feq a b = False"


fun is_nan :: "float64 \<Rightarrow> bool" where
  "is_nan NaN = True"
| "is_nan a = False"

fun is_finite :: "float64 \<Rightarrow> bool" where
  "is_finite (Fin x) = True"
| "is_finite a = False"

text \<open>\<open>inRange a b\<close>: the value is finite and lies in the closed interval from \<open>- b\<close> to \<open>b\<close>.\<close>

fun inRange :: "float64 \<Rightarrow> real \<Rightarrow> bool" where
  "inRange (Fin x) b = (- b \<le> x \<and> x \<le> b)"
| "inRange a b = False"


section \<open>Data model\<close>

record Coordinate =
  ID :: string
  X :: float64
  Y :: float64
  Z :: float64

record TargetChallenge =
  ChallengeID :: string
  PlayerPos :: Coordinate
  Targets :: "Coordinate list"
  Timestamp :: int

record TargetResponse =
  ChallengeID :: string
  ClosestID :: string

text \<open>
  An instant of \<^verbatim>\<open>time.Now()\<close> is its reading of the monotonic clock in nanoseconds, a
  \<^verbatim>\<open>time.Duration\<close> is a number of nanoseconds.
\<close>

type_synonym Time = int
type_synonym Duration = int

definition Second :: Duration where
  "Second = 1000000000"

record ChallengeData =
  Challenge :: TargetChallenge
  ExpectedAnswer :: string
  CreatedAt :: Time

text \<open>
  The map \<^verbatim>\<open>activeChallenges\<close>. Its values are pointers to records that are allocated at
  insertion and never written afterwards, so the map holds the records themselves.
\<close>

type_synonym Store = "string \<rightharpoonup> ChallengeData"


section \<open>Geometry\<close>

definition distance3D :: "Coordinate \<Rightarrow> Coordinate \<Rightarrow> float64" where
  "distance3D p1 p2 =
     (let dx = fsub (X p1) (X p2);
          dy = fsub (Y p1) (Y p2);
          dz = fsub (Z p1) (Z p2)
      in fsqrt (fadd (fadd (fmul dx dx) (fmul dy dy)) (fmul dz dz)))"

text \<open>The loop of \<^verbatim>\<open>findClosestTarget\<close> over \<^verbatim>\<open>targets[1:]\<close>, with its two variables.\<close>

fun closestLoop :: "Coordinate \<Rightarrow> Coordinate list \<Rightarrow> string \<Rightarrow> float64 \<Rightarrow> string" where
  "closestLoop playerPos [] closestID minDistance = closestID"
| "closestLoop playerPos (target # rest) closestID minDistance =
     (let dist = distance3D playerPos target in
      if flt dist minDistance
      then closestLoop playerPos rest (ID target) dist
      else closestLoop playerPos rest closestID minDistance)"

definition findClosestTarget :: "Coordinate \<Rightarrow> Coordinate list \<Rightarrow> string" where
  "findClosestTarget playerPos targets =
     (case targets of
        [] \<Rightarrow> ''''
      | t0 # rest \<Rightarrow> closestLoop playerPos rest (ID t0) (distance3D playerPos t0))"


section \<open>Challenge generation\<close>

text \<open>The verb \<^verbatim>\<open>%d\<close> of \<^verbatim>\<open>fmt.Sprintf\<close> on a non-negative integer.\<close>

definition digitChar :: "nat \<Rightarrow> char" where
  "digitChar d = ''0123456789'' ! d"

function itoa :: "nat \<Rightarrow> string" where
  "itoa n = (if n < 10 then [digitChar n] else itoa (n div 10) @ [digitChar (n mod 10)])"
  by pat_completeness auto
termination
  by (relation "measure (\<lambda>n. n)") auto

declare itoa.simps [simp del]

text \<open>
  The draws of the random source are inputs: \<open>idDraw\<close> is the result of
  \<^verbatim>\<open>rand.Intn(999999)\<close>, \<open>countDraw\<close> the result of \<^verbatim>\<open>rand.Intn(4)\<close>, and
  \<open>floatDraw k\<close> the result of the \<open>k\<close>-th call of \<^verbatim>\<open>rand.Float64()\<close> (three calls for
  each target, in the order X, Y, Z).
\<close>

definition newTarget :: "(nat \<Rightarrow> float64) \<Rightarrow> nat \<Rightarrow> Coordinate" where
  "newTarget floatDraw i =
     \<lparr>ID = ''T'' @ itoa (i + 1),
      X = fmul (fsub (floatDraw (3 * i)) (Fin (1/2))) (Fin 200),
      Y = fmul (fsub (floatDraw (3 * i + 1)) (Fin (1/2))) (Fin 200),
      Z = fmul (fsub (floatDraw (3 * i + 2)) (Fin (1/2))) (Fin 100)\<rparr>"

function fillTargets :: "(nat \<Rightarrow> float64) \<Rightarrow> nat \<Rightarrow> nat \<Rightarrow> Coordinate list \<Rightarrow> Coordinate list" where
  "fillTargets floatDraw i numTargets targets =
     (if i < numTargets
      then fillTargets floatDraw (i + 1) numTargets (targets[i := newTarget floatDraw i])
      else targets)"
  by pat_completeness auto
termination
  by (relation "measure (\<lambda>(floatDraw, i, numTargets, targets). numTargets - i)") auto

declare fillTargets.simps [simp del]

definition zeroCoordinate :: Coordinate where
  "zeroCoordinate = \<lparr>ID = '''', X = Fin 0, Y = Fin 0, Z = Fin 0\<rparr>"

definition generateChallenge :: "nat \<Rightarrow> nat \<Rightarrow> (nat \<Rightarrow> float64) \<Rightarrow> int \<Rightarrow> TargetChallenge" where
  "generateChallenge idDraw countDraw floatDraw unixNow =
     (let challengeID = ''TARG-'' @ itoa idDraw;
          playerPos = \<lparr>ID = ''PLAYER'', X = Fin 0, Y = Fin 0, Z = Fin 0\<rparr>;
          numTargets = 5 + countDraw;
          targets = fillTargets floatDraw 0 numTargets (replicate numTargets zeroCoordinate)
      in \<lparr>TargetChallenge.ChallengeID = challengeID, PlayerPos = playerPos,
          Targets = targets, Timestamp = unixNow\<rparr>)"


section \<open>The store of active challenges\<close>

text \<open>
  \<^verbatim>\<open>cleanupExpiredChallenges\<close> holds the write lock for the whole call. \<open>ids\<close> is the
  order in which the \<^verbatim>\<open>range\<close> loop visits the keys of the map.
\<close>

fun cleanupLoop :: "Time \<Rightarrow> string list \<Rightarrow> Store \<Rightarrow> Store" where
  "cleanupLoop cutoff [] store = store"
| "cleanupLoop cutoff (key # ids) store =
     (case store key of
        None \<Rightarrow> cleanupLoop cutoff ids store
      | Some data \<Rightarrow>
          if CreatedAt data < cutoff
          then cleanupLoop cutoff ids (store(key := None))
          else cleanupLoop cutoff ids store)"

definition cleanupExpiredChallenges :: "Time \<Rightarrow> string list \<Rightarrow> Store \<Rightarrow> Store" where
  "cleanupExpiredChallenges now ids store = cleanupLoop (now - 2 * Second) ids store"

text \<open>
  \<^verbatim>\<open>GET /mission/coordinates\<close>: \<open>unixNow\<close> is the clock reading of \<^verbatim>\<open>generateChallenge\<close>
  in seconds, \<open>now\<close> the one stored as \<^verbatim>\<open>CreatedAt\<close>. The result is the challenge
  sent to the client and the new store.
\<close>

definition coordinatesChallengeHandler ::
  "nat \<Rightarrow> nat \<Rightarrow> (nat \<Rightarrow> float64) \<Rightarrow> int \<Rightarrow> Time \<Rightarrow> Store \<Rightarrow> TargetChallenge \<times> Store" where
  "coordinatesChallengeHandler idDraw countDraw floatDraw unixNow now store =
     (let challenge = generateChallenge idDraw countDraw floatDraw unixNow;
          expectedAnswer = findClosestTarget (PlayerPos challenge) (Targets challenge)
      in (challenge,
          store(TargetChallenge.ChallengeID challenge \<mapsto>
            \<lparr>Challenge = challenge, ExpectedAnswer = expectedAnswer, CreatedAt = now\<rparr>)))"


section \<open>Answer submission\<close>

text \<open>
  What \<^verbatim>\<open>POST /mission/coordinates\<close> answers: 400 "Invalid JSON", 404 "Challenge not
  found or expired", 408 "TIME EXPIRED!", the JSON object "TARGET ACQUIRED" (response time,
  challenge id, target id) and the JSON object "TARGET MISSED" (correct target, chosen
  target, correct distance, chosen distance, challenge id). The numbers are the values the
  handler passes to \<^verbatim>\<open>fmt.Sprintf\<close>.
\<close>

datatype Response =
    InvalidJSON
  | ChallengeNotFound
  | TimeExpired
  | TargetAcquired Duration string string
  | TargetMissed string string float64 float64 string

text \<open>The loop that looks up the two distances for the feedback of a wrong answer.\<close>

fun feedbackLoop ::
  "Coordinate \<Rightarrow> string \<Rightarrow> string \<Rightarrow> Coordinate list \<Rightarrow> float64 \<times> float64 \<Rightarrow> float64 \<times> float64" where
  "feedbackLoop playerPos expected chosen [] (correctDistance, chosenDistance) =
     (correctDistance, chosenDistance)"
| "feedbackLoop playerPos expected chosen (target # rest) (correctDistance, chosenDistance) =
     (let dist = distance3D playerPos target;
          correctDistance' = (if ID target = expected then dist else correctDistance);
          chosenDistance' = (if ID target = chosen then dist else chosenDistance)
      in feedbackLoop playerPos expected chosen rest (correctDistance', chosenDistance'))"

text \<open>Lines 172 to 214: the answer to a submission that arrived in time.\<close>

definition answerResult :: "TargetResponse \<Rightarrow> ChallengeData \<Rightarrow> Duration \<Rightarrow> Response" where
  "answerResult response challengeData elapsed =
     (if ClosestID response = ExpectedAnswer challengeData
      then TargetAcquired elapsed (TargetResponse.ChallengeID response) (ClosestID response)
      else
        (let (correctDistance, chosenDistance) =
               feedbackLoop (PlayerPos (Challenge challengeData)) (ExpectedAnswer challengeData)
                 (ClosestID response) (Targets (Challenge challengeData)) (Fin 0, Fin 0)
         in TargetMissed (ExpectedAnswer challengeData) (ClosestID response)
              correctDistance chosenDistance (TargetResponse.ChallengeID response)))"

text \<open>
  The handler run without interruption. \<open>body\<close> is the result of decoding the request
  body (\<open>None\<close>: the decoder returned an error), \<open>now\<close> the clock reading of
  \<^verbatim>\<open>time.Since\<close>.
\<close>

definition coordinatesAnswerHandler ::
  "TargetResponse option \<Rightarrow> Time \<Rightarrow> Store \<Rightarrow> Response \<times> Store" where
  "coordinatesAnswerHandler body now store =
     (case body of
        None \<Rightarrow> (InvalidJSON, store)
      | Some response \<Rightarrow>
          (case store (TargetResponse.ChallengeID response) of
             None \<Rightarrow> (ChallengeNotFound, store)
           | Some challengeData \<Rightarrow>
               (let elapsed = now - CreatedAt challengeData in
                if Second < elapsed then (TimeExpired, store)
                else (answerResult response challengeData elapsed,
                      store(TargetResponse.ChallengeID response := None)))))"


section \<open>Requests running concurrently\<close>

text \<open>
  The handlers run in goroutines of their own and share the map only under
  \<^verbatim>\<open>challengeMutex\<close>. A submission passes through three sections, and other goroutines
  can run between them: decoding and the lookup under the read lock (lines 149 to 157),
  the checks and the answer (lines 159 to 214), and the removal under the write lock
  (lines 216 to 219).
\<close>

datatype Handler =
    Received "TargetResponse option"
  | Looked TargetResponse "ChallengeData option"
  | Responded TargetResponse Response
  | Finished Response

fun answerStep :: "Time \<Rightarrow> Store \<Rightarrow> Handler \<Rightarrow> Handler \<times> Store" where
  "answerStep now store (Received None) = (Finished InvalidJSON, store)"
| "answerStep now store (Received (Some response)) =
     (Looked response (store (TargetResponse.ChallengeID response)), store)"
| "answerStep now store (Looked response None) = (Finished ChallengeNotFound, store)"
| "answerStep now store (Looked response (Some challengeData)) =
     (let elapsed = now - CreatedAt challengeData in
      if Second < elapsed then (Finished TimeExpired, store)
      else (Responded response (answerResult response challengeData elapsed), store))"
| "answerStep now store (Responded response result) =
     (Finished result, store(TargetResponse.ChallengeID response := None))"
| "answerStep now store (Finished result) = (Finished result, store)"

record System =
  activeChallenges :: Store
  requests :: "Handler list"

text \<open>
  One event: submission number \<open>i\<close> runs its next section, the sweeper runs once, or a
  challenge is issued (its insertion is one section under the write lock).
\<close>

datatype Event =
    AnswerStep nat Time
  | Sweep Time "string list"
  | Issue nat nat "nat \<Rightarrow> float64" int Time

fun fire :: "Event \<Rightarrow> System \<Rightarrow> System" where
  "fire (AnswerStep i now) sys =
     (if i < length (requests sys)
      then (let (h, store) = answerStep now (activeChallenges sys) (requests sys ! i)
            in sys\<lparr>activeChallenges := store, requests := (requests sys)[i := h]\<rparr>)
      else sys)"
| "fire (Sweep now ids) sys =
     sys\<lparr>activeChallenges := cleanupExpiredChallenges now ids (activeChallenges sys)\<rparr>"
| "fire (Issue idDraw countDraw floatDraw unixNow now) sys =
     sys\<lparr>activeChallenges :=
       snd (coordinatesChallengeHandler idDraw countDraw floatDraw unixNow now
              (activeChallenges sys))\<rparr>"

fun run :: "Event list \<Rightarrow> System \<Rightarrow> System" where
  "run [] sys = sys"
| "run (e # es) sys = run es (fire e sys)"

fun isIssue :: "Event \<Rightarrow> bool" where
  "isIssue (Issue idDraw countDraw floatDraw unixNow now) = True"
| "isIssue e = False"


section \<open>Predicates used in the statements\<close>

text \<open>A point whose three coordinates are finite: no NaN and no infinity.\<close>

definition finitePoint :: "Coordinate \<Rightarrow> bool" where
  "finitePoint p = (is_finite (X p) \<and> is_finite (Y p) \<and> is_finite (Z p))"

text \<open>A result of \<^verbatim>\<open>rand.Float64()\<close>: a finite value in the half-open interval from 0 to 1.\<close>

fun unitInterval :: "float64 \<Rightarrow> bool" where
  "unitInterval (Fin r) = (0 \<le> r \<and> r < 1)"
| "unitInterval a = False"

text \<open>Reading a decimal numeral back, the inverse of \<open>itoa\<close>.\<close>

definition digitVal :: "char \<Rightarrow> nat" where
  "digitVal c = of_char c - 48"

definition atoi :: "string \<Rightarrow> nat" where
  "atoi s = foldl (\<lambda>acc c. 10 * acc + digitVal c) 0 s"

text \<open>
  The invariant of a stored record: the expected answer is a non-empty string and is the
  identifier of one of the targets of the record's own challenge.
\<close>

definition wellFormed :: "ChallengeData \<Rightarrow> bool" where
  "wellFormed challengeData =
     (ExpectedAnswer challengeData \<noteq> [] \<and>
      ExpectedAnswer challengeData \<in> set (map ID (Targets (Challenge challengeData))))"


text \<open>
  The scenario of the specification: the player at the origin, the targets T1 at (10, 0, 0)
  and T2 at (3, 0, 0), and the record the issuing handler would store for this challenge
  at the instant \<open>t\<close>.
\<close>

definition scenarioChallenge :: TargetChallenge where
  "scenarioChallenge =
     \<lparr>TargetChallenge.ChallengeID = ''TARG-7'',
      PlayerPos = \<lparr>ID = ''PLAYER'', X = Fin 0, Y = Fin 0, Z = Fin 0\<rparr>,
      Targets = [\<lparr>ID = ''T1'', X = Fin 10, Y = Fin 0, Z = Fin 0\<rparr>,
                 \<lparr>ID = ''T2'', X = Fin 3, Y = Fin 0, Z = Fin 0\<rparr>],
      Timestamp = 0\<rparr>"

definition scenarioRecord :: "Time \<Rightarrow> ChallengeData" where
  "scenarioRecord t =
     \<lparr>Challenge = scenarioChallenge,
      ExpectedAnswer = findClosestTarget (PlayerPos scenarioChallenge) (Targets scenarioChallenge),
      CreatedAt = t\<rparr>"


section \<open>Lemmas\<close>

subsection \<open>Rounding\<close>

lemma rhe_of_int [simp]: "rhe (of_int n) = n"
  by (simp add: rhe_def)

lemma rhe_bounds: "\<lfloor>t\<rfloor> \<le> rhe t" "rhe t \<le> \<lfloor>t\<rfloor> + 1"
  by (simp_all add: rhe_def Let_def)

lemma rhe_mono: assumes "s \<le> t" shows "rhe s \<le> rhe t"
proof (cases "\<lfloor>s\<rfloor> = \<lfloor>t\<rfloor>")
  case True
  then show ?thesis using assms by (auto simp: rhe_def Let_def)
next
  case False
  then have "\<lfloor>s\<rfloor> < \<lfloor>t\<rfloor>" using assms floor_mono[OF assms] by linarith
  then have "rhe s \<le> \<lfloor>t\<rfloor>" using rhe_bounds(2)[of s] by linarith
  then show ?thesis using rhe_bounds(1)[of t] by linarith
qed

lemma rhe_nonneg: "0 \<le> t \<Longrightarrow> 0 \<le> rhe t"
  using rhe_mono[of 0 t] rhe_of_int[of 0] by simp

lemma round_pos_nonneg: "0 \<le> x \<Longrightarrow> 0 \<le> round_pos x"
  by (simp add: round_pos_def rhe_nonneg)

lemma pow2_bracket:
  assumes "0 < x"
  shows "2 powr of_int \<lfloor>log 2 x\<rfloor> \<le> x" "x < 2 powr (of_int \<lfloor>log 2 x\<rfloor> + 1)"
proof -
  have "of_int \<lfloor>log 2 x\<rfloor> \<le> log 2 x" by simp
  then show "2 powr of_int \<lfloor>log 2 x\<rfloor> \<le> x"
    using assms le_log_iff[of 2 x "of_int \<lfloor>log 2 x\<rfloor>"] by simp
  have "log 2 x < of_int \<lfloor>log 2 x\<rfloor> + 1" by linarith
  then show "x < 2 powr (of_int \<lfloor>log 2 x\<rfloor> + 1)"
    using assms log_less_iff[of 2 x "of_int \<lfloor>log 2 x\<rfloor> + 1"] by simp
qed

lemma powr_int_nat: "0 \<le> k \<Longrightarrow> (2::real) powr of_int k = of_int (2 ^ nat k)"
  by (simp add: powr_realpow[symmetric])

lemma round_pos_le_pow2:
  assumes "0 < x" "x \<le> 2 powr of_int k" "ulp_exp x \<le> k"
  shows "round_pos x \<le> 2 powr of_int k"
proof -
  let ?q = "ulp_exp x"
  have "x / 2 powr of_int ?q \<le> 2 powr of_int k / 2 powr of_int ?q"
    using assms by (simp add: divide_right_mono)
  also have "\<dots> = 2 powr of_int (k - ?q)"
    by (simp add: powr_diff)
  also have "\<dots> = of_int (2 ^ nat (k - ?q))"
    using assms by (intro powr_int_nat) simp
  finally have "rhe (x / 2 powr of_int ?q) \<le> 2 ^ nat (k - ?q)"
    using rhe_mono rhe_of_int by metis
  then have "of_int (rhe (x / 2 powr of_int ?q)) \<le> (of_int (2 ^ nat (k - ?q)) :: real)"
    by linarith
  then have "round_pos x \<le> of_int (2 ^ nat (k - ?q)) * 2 powr of_int ?q"
    unfolding round_pos_def by (intro mult_right_mono) simp_all
  also have "of_int (2 ^ nat (k - ?q)) = (2::real) powr of_int (k - ?q)"
    using assms by (subst powr_int_nat) simp_all
  also have "2 powr of_int (k - ?q) * 2 powr of_int ?q = (2::real) powr of_int k"
    by (simp add: powr_add[symmetric])
  finally show ?thesis .
qed

lemma round_pos_ge_pow2:
  assumes "0 < x" "2 powr of_int k \<le> x" "ulp_exp x \<le> k"
  shows "2 powr of_int k \<le> round_pos x"
proof -
  let ?q = "ulp_exp x"
  have "2 powr of_int k / 2 powr of_int ?q \<le> x / 2 powr of_int ?q"
    using assms by (simp add: divide_right_mono)
  moreover have "2 powr of_int k / 2 powr of_int ?q = (2::real) powr of_int (k - ?q)"
    by (simp add: powr_diff)
  moreover have "(2::real) powr of_int (k - ?q) = of_int (2 ^ nat (k - ?q))"
    using assms by (intro powr_int_nat) simp
  ultimately have "2 ^ nat (k - ?q) \<le> rhe (x / 2 powr of_int ?q)"
    using rhe_mono rhe_of_int by metis
  then have "(of_int (2 ^ nat (k - ?q)) :: real) \<le> of_int (rhe (x / 2 powr of_int ?q))"
    by linarith
  then have "of_int (2 ^ nat (k - ?q)) * 2 powr of_int ?q \<le> round_pos x"
    unfolding round_pos_def by (intro mult_right_mono) simp_all
  moreover have "of_int (2 ^ nat (k - ?q)) = (2::real) powr of_int (k - ?q)"
    using assms by (subst powr_int_nat) simp_all
  moreover have "2 powr of_int (k - ?q) * 2 powr of_int ?q = (2::real) powr of_int k"
    by (simp add: powr_add[symmetric])
  ultimately show ?thesis by simp
qed

lemma ulp_exp_mono: "0 < x \<Longrightarrow> x \<le> y \<Longrightarrow> ulp_exp x \<le> ulp_exp y"
  unfolding ulp_exp_def using floor_mono[of "log 2 x" "log 2 y"] by (simp add: max.coboundedI1)

lemma round_pos_mono:
  assumes "0 < x" "x \<le> y"
  shows "round_pos x \<le> round_pos y"
proof (cases "ulp_exp x = ulp_exp y")
  case True
  have "x / 2 powr of_int (ulp_exp y) \<le> y / 2 powr of_int (ulp_exp y)"
    using assms by (simp add: divide_right_mono)
  then have "rhe (x / 2 powr of_int (ulp_exp y)) \<le> rhe (y / 2 powr of_int (ulp_exp y))"
    by (rule rhe_mono)
  then show ?thesis unfolding round_pos_def True
    by (intro mult_right_mono) simp_all
next
  case False
  have ypos: "0 < y" using assms by linarith
  define k where "k = \<lfloor>log 2 y\<rfloor>"
  have lt: "ulp_exp x < ulp_exp y" using False ulp_exp_mono[OF assms] by linarith
  have kbig: "- 1022 < k" using lt unfolding ulp_exp_def k_def by linarith
  have qy: "ulp_exp y = k - 52" using kbig unfolding ulp_exp_def k_def by simp
  have ex: "\<lfloor>log 2 x\<rfloor> < k" using lt qy unfolding ulp_exp_def by linarith
  have qx: "ulp_exp x \<le> k" using lt qy by linarith
  have "x < 2 powr (of_int \<lfloor>log 2 x\<rfloor> + 1)" using pow2_bracket(2)[OF assms(1)] .
  also have "\<dots> \<le> 2 powr of_int k" using ex by (simp add: powr_mono) 
  finally have xk: "x \<le> 2 powr of_int k" by simp
  have yk: "2 powr of_int k \<le> y" using pow2_bracket(1)[OF ypos] unfolding k_def .
  have "round_pos x \<le> 2 powr of_int k" using round_pos_le_pow2[OF assms(1) xk qx] .
  also have "\<dots> \<le> round_pos y" using round_pos_ge_pow2[OF ypos yk] qy by simp
  finally show ?thesis .
qed

lemma round_real_mono: assumes "x \<le> y" shows "round_real x \<le> round_real y"
proof -
  consider "0 < x" | "x = 0" | "x < 0" "y < 0" | "x < 0" "0 \<le> y" by linarith
  then show ?thesis
  proof cases
    case 1 then show ?thesis using assms round_pos_mono[of x y] by (simp add: round_real_def)
  next
    case 2 then show ?thesis using assms round_pos_nonneg[of y] by (simp add: round_real_def)
  next
    case 3 then show ?thesis using assms round_pos_mono[of "-y" "-x"] by (simp add: round_real_def)
  next
    case 4 then show ?thesis using round_pos_nonneg[of y] round_pos_nonneg[of "-x"]
      by (simp add: round_real_def)
  qed
qed

lemma round_real_minus: "round_real (- x) = - round_real x"
  by (simp add: round_real_def)

lemma round_real_0 [simp]: "round_real 0 = 0"
  by (simp add: round_real_def)

lemma round_real_nonneg: "0 \<le> x \<Longrightarrow> 0 \<le> round_real x"
  using round_real_mono[of 0 x] by simp

lemma floor_log2_eq:
  assumes "2 powr of_int k \<le> x" "x < 2 powr (of_int k + 1)"
  shows "\<lfloor>log 2 x\<rfloor> = k"
proof -
  have xpos: "0 < x" using assms(1) powr_gt_zero[of 2 "of_int k"] by linarith
  have "of_int k \<le> log 2 x" using assms(1) xpos le_log_iff[of 2 x "of_int k"] by simp
  moreover have "log 2 x < of_int k + 1" using assms(2) xpos log_less_iff[of 2 x "of_int k + 1"] by simp
  ultimately show ?thesis by linarith
qed

lemma round_pos_exact:
  assumes "x / 2 powr of_int (ulp_exp x) = of_int m"
  shows "round_pos x = x"
  unfolding round_pos_def assms rhe_of_int
  using assms by (simp add: field_simps)

lemma round_real_of_int:
  assumes "\<bar>n\<bar> < 2 ^ 53"
  shows "round_real (of_int n) = of_int n"
proof -
  have pos: "round_pos (of_int m) = of_int m" if m: "0 < m" "m < 2 ^ 53" for m :: int
  proof -
    define e where "e = \<lfloor>log 2 (of_int m)\<rfloor>"
    have "0 \<le> log 2 (of_int m)" using m by simp
    then have e0: "0 \<le> e" unfolding e_def by simp
    have "(2::real) powr of_int e \<le> of_int m" unfolding e_def using pow2_bracket(1)[of "of_int m"] m by simp
    also have "(of_int m :: real) < 2 ^ 53" using m by (metis of_int_less_numeral_power_cancel_iff)
    also have "(2::real) ^ 53 = 2 powr 53" using powr_realpow[of 2 53] by simp
    finally have "(2::real) powr of_int e < 2 powr 53" .
    from powr_less_cancel[OF this] have "e < 53" by simp
    then have q: "ulp_exp (of_int m) = e - 52" "e - 52 \<le> 0"
      using e0 unfolding ulp_exp_def e_def by simp_all
    have "of_int m / 2 powr of_int (e - 52) = of_int m * (2::real) powr of_int (52 - e)"
      by (simp add: powr_diff field_simps)
    also have "\<dots> = of_int m * of_int (2 ^ nat (52 - e))"
      using q by (subst powr_int_nat) simp_all
    also have "\<dots> = of_int (m * 2 ^ nat (52 - e))" by simp
    finally show ?thesis using round_pos_exact[of "of_int m" "m * 2 ^ nat (52 - e)"] q by simp
  qed
  consider "n = 0" | "0 < n" | "n < 0" by linarith
  then show ?thesis
  proof cases
    case 1 then show ?thesis by simp
  next
    case 2 then show ?thesis using pos[of n] assms by (simp add: round_real_def)
  next
    case 3 then show ?thesis using pos[of "-n"] assms by (simp add: round_real_def)
  qed
qed

lemma round_real_half: "round_real (1/2) = 1/2"
proof -
  have "\<lfloor>log 2 (1/2 :: real)\<rfloor> = - 1"
    by (rule floor_log2_eq) (simp_all add: powr_minus)
  then have q: "ulp_exp (1/2) = - 53" by (simp add: ulp_exp_def)
  have "(1/2 :: real) / 2 powr of_int (- 53) = of_int (2 ^ 52)"
    by (simp add: powr_minus powr_realpow[symmetric])
  then have "round_pos (1/2) = 1/2"
    using round_pos_exact[of "1/2" "2 ^ 52"] q by simp
  then show ?thesis by (simp add: round_real_def)
qed

lemma overflow_threshold_gt: "2 ^ 53 < overflow_threshold"
  unfolding overflow_threshold_def by (rule power_strict_increasing) simp_all

lemma rnd_of_int: "\<bar>n\<bar> < 2 ^ 53 \<Longrightarrow> rnd (of_int n) = Fin (of_int n)"
proof -
  assume a: "\<bar>n\<bar> < 2 ^ 53"
  then have "\<bar>of_int n :: real\<bar> < 2 ^ 53"
    by (metis of_int_abs of_int_less_numeral_power_cancel_iff)
  then have "\<bar>of_int n :: real\<bar> < overflow_threshold"
    using overflow_threshold_gt by linarith
  then have "\<not> overflow_threshold \<le> of_int n" "\<not> of_int n \<le> - overflow_threshold"
    by linarith+
  then show ?thesis using round_real_of_int[OF a] by (simp add: rnd_def Let_def)
qed

lemma rnd_between:
  assumes "a \<le> x" "x \<le> b" "round_real a = a" "round_real b = b"
    and "- overflow_threshold < a" "b < overflow_threshold"
  shows "\<exists>y. rnd x = Fin y \<and> a \<le> y \<and> y \<le> b"
proof -
  have "a \<le> round_real x" using round_real_mono[OF assms(1)] assms(3) by simp
  moreover have "round_real x \<le> b" using round_real_mono[OF assms(2)] assms(4) by simp
  ultimately show ?thesis using assms(5,6) by (simp add: rnd_def Let_def)
qed


subsection \<open>Facts about the float64 operations\<close>

lemma rnd_0 [simp]: "rnd 0 = Fin 0"
proof -
  have "0 < overflow_threshold" by (simp add: overflow_threshold_def)
  then show ?thesis by (simp add: rnd_def)
qed

lemma rnd_not_nan [simp]: "rnd x \<noteq> NaN"
  by (simp add: rnd_def Let_def)

lemma rnd_minus: "rnd (- x) = fneg (rnd x)"
proof -
  have "0 < overflow_threshold" by (simp add: overflow_threshold_def)
  then show ?thesis
    by (auto simp: rnd_def Let_def round_real_minus)
qed

lemma rnd_nonneg_cases:
  assumes "0 \<le> x"
  shows "rnd x = PInf \<or> (\<exists>y. rnd x = Fin y \<and> 0 \<le> y)"
proof -
  have "0 < overflow_threshold" by (simp add: overflow_threshold_def)
  then show ?thesis using round_real_nonneg[OF assms]
    by (auto simp: rnd_def Let_def)
qed

lemma fneg_fneg [simp]: "fneg (fneg a) = a"
  by (cases a) simp_all

lemma fadd_fneg: "fadd (fneg a) (fneg b) = fneg (fadd a b)"
proof (cases a; cases b)
  fix x y assume "a = Fin x" "b = Fin y"
  then show ?thesis using rnd_minus[of "x + y"] by simp
qed simp_all

lemma fadd_commute: "fadd a b = fadd b a"
  by (cases a; cases b) (simp_all add: add.commute)

lemma fsub_swap: "fsub b a = fneg (fsub a b)"
  unfolding fsub_def using fadd_fneg[of a "fneg b"] by (simp add: fadd_commute)

lemma fmul_fneg_fneg: "fmul (fneg a) (fneg a) = fmul a a"
  by (cases a) simp_all

lemma distance3D_swap: "distance3D b a = distance3D a b"
proof -
  have sq: "fmul (fsub v u) (fsub v u) = fmul (fsub u v) (fsub u v)" for u v
    by (simp only: fsub_swap[of u v] fmul_fneg_fneg)
  show ?thesis
    unfolding distance3D_def Let_def by (simp only: sq[of "X a"] sq[of "Y a"] sq[of "Z a"])
qed

lemma flt_irrefl [simp]: "\<not> flt a a"
  by (cases a) simp_all

lemma flt_trans: "flt a b \<Longrightarrow> flt b c \<Longrightarrow> flt a c"
  by (cases a; cases b; cases c) simp_all

lemma feq_flt_trans: "feq a b \<Longrightarrow> flt b c \<Longrightarrow> flt a c"
  by (cases a; cases b; cases c) simp_all

lemma feq_refl_iff: "feq a a \<longleftrightarrow> \<not> is_nan a"
  by (cases a) simp_all


lemma fmul_self_cases:
  assumes "\<not> is_nan a"
  shows "fmul a a = PInf \<or> (\<exists>y. fmul a a = Fin y \<and> 0 \<le> y)"
proof (cases a)
  case (Fin x)
  then show ?thesis using rnd_nonneg_cases[of "x * x"] by simp
qed (use assms in simp_all)

lemma fadd_nonneg_cases:
  assumes "a = PInf \<or> (\<exists>x. a = Fin x \<and> 0 \<le> x)" "b = PInf \<or> (\<exists>y. b = Fin y \<and> 0 \<le> y)"
  shows "fadd a b = PInf \<or> (\<exists>z. fadd a b = Fin z \<and> 0 \<le> z)"
proof -
  consider "a = PInf" | "b = PInf" | x y where "a = Fin x" "b = Fin y" "0 \<le> x" "0 \<le> y"
    using assms by blast
  then show ?thesis
  proof cases
    case 1 then show ?thesis using assms(2) by auto
  next
    case 2 then show ?thesis using assms(1) by auto
  next
    case 3 then show ?thesis using rnd_nonneg_cases[of "x + y"] by simp
  qed
qed

lemma fsqrt_nonneg_cases:
  assumes "a = PInf \<or> (\<exists>x. a = Fin x \<and> 0 \<le> x)"
  shows "\<not> is_nan (fsqrt a)"
proof -
  consider "a = PInf" | x where "a = Fin x" "0 \<le> x" using assms by blast
  then show ?thesis
  proof cases
    case 1 then show ?thesis by simp
  next
    case 2 then show ?thesis using rnd_not_nan[of "sqrt x"] by (cases "rnd (sqrt x)") simp_all
  qed
qed

lemma fsub_finite_not_nan: "is_finite a \<Longrightarrow> is_finite b \<Longrightarrow> \<not> is_nan (fsub a b)"
proof -
  assume "is_finite a" "is_finite b"
  then obtain x y where "a = Fin x" "b = Fin y" by (cases a; cases b) simp_all
  then show ?thesis using rnd_not_nan[of "x + - y"] by (cases "rnd (x + - y)") (simp_all add: fsub_def)
qed

lemma distance3D_not_nan:
  assumes "finitePoint a" "finitePoint b"
  shows "\<not> is_nan (distance3D a b)"
proof -
  have "\<not> is_nan (fsub (X a) (X b))" "\<not> is_nan (fsub (Y a) (Y b))" "\<not> is_nan (fsub (Z a) (Z b))"
    using assms by (simp_all add: finitePoint_def fsub_finite_not_nan)
  then show ?thesis unfolding distance3D_def Let_def
    by (intro fsqrt_nonneg_cases fadd_nonneg_cases fmul_self_cases)
qed

lemma distance3D_self:
  assumes "finitePoint a"
  shows "distance3D a a = Fin 0"
proof -
  obtain x y z where "X a = Fin x" "Y a = Fin y" "Z a = Fin z"
    using assms unfolding finitePoint_def by (cases "X a"; cases "Y a"; cases "Z a") simp_all
  then show ?thesis by (simp add: distance3D_def fsub_def)
qed


subsection \<open>Nearest target\<close>

lemma closestLoop_spec:
  assumes "ID best = closestID" "distance3D p best = minDistance"
    and "\<forall>u \<in> set pre \<union> {best} \<union> set post. \<not> flt (distance3D p u) minDistance"
    and "\<forall>u \<in> set pre. \<not> feq (distance3D p u) minDistance"
  shows "\<exists>pre' t post'. pre @ best # post @ rest = pre' @ t # post' \<and>
           closestLoop p rest closestID minDistance = ID t \<and>
           (\<forall>u \<in> set (pre @ best # post @ rest). \<not> flt (distance3D p u) (distance3D p t)) \<and>
           (\<forall>u \<in> set pre'. \<not> feq (distance3D p u) (distance3D p t))"
  using assms
proof (induction rest arbitrary: pre best post closestID minDistance)
  case Nil
  then show ?case by (intro exI[of _ pre] exI[of _ best] exI[of _ post]) auto
next
  case (Cons target rest)
  let ?dist = "distance3D p target"
  show ?case
  proof (cases "flt ?dist minDistance")
    case True
    have 1: "\<forall>u \<in> set (pre @ best # post) \<union> {target} \<union> set []. \<not> flt (distance3D p u) ?dist"
      using Cons.prems(3) True flt_trans by auto
    have 2: "\<forall>u \<in> set (pre @ best # post). \<not> feq (distance3D p u) ?dist"
      using Cons.prems(3) True feq_flt_trans by auto
    from Cons.IH[of target "ID target" ?dist "pre @ best # post" "[]", OF refl refl 1 2]
    show ?thesis using True by simp
  next
    case False
    have 1: "\<forall>u \<in> set pre \<union> {best} \<union> set (post @ [target]). \<not> flt (distance3D p u) minDistance"
      using Cons.prems(3) False by auto
    from Cons.IH[of best closestID minDistance pre "post @ [target]", OF Cons.prems(1,2) 1 Cons.prems(4)]
    show ?thesis using False by simp
  qed
qed

lemma findClosestTarget_spec:
  assumes "targets \<noteq> []"
  shows "\<exists>pre t post. targets = pre @ t # post \<and>
           findClosestTarget p targets = ID t \<and>
           (\<forall>u \<in> set targets. \<not> flt (distance3D p u) (distance3D p t)) \<and>
           (\<forall>u \<in> set pre. \<not> feq (distance3D p u) (distance3D p t))"
proof -
  obtain t0 rest where ts: "targets = t0 # rest" using assms by (cases targets) auto
  from closestLoop_spec[of t0 "ID t0" p "distance3D p t0" "[]" "[]" rest]
  show ?thesis unfolding ts findClosestTarget_def by simp
qed


subsection \<open>Generated challenges\<close>

lemma rnd_Ints: "x \<in> \<int> \<Longrightarrow> \<bar>x\<bar> < 2 ^ 53 \<Longrightarrow> rnd x = Fin x"
proof -
  assume "x \<in> \<int>" and b: "\<bar>x\<bar> < 2 ^ 53"
  then obtain n where x: "x = of_int n" by (auto elim: Ints_cases)
  have "\<bar>n\<bar> < 2 ^ 53" using b unfolding x
    by (metis of_int_abs of_int_less_numeral_power_cancel_iff)
  then show ?thesis unfolding x by (rule rnd_of_int)
qed

lemma digitVal_digitChar: "d < 10 \<Longrightarrow> digitVal (digitChar d) = d"
proof -
  assume "d < 10"
  then consider "d = 0" | "d = 1" | "d = 2" | "d = 3" | "d = 4" | "d = 5" | "d = 6" | "d = 7"
    | "d = 8" | "d = 9" by atomize_elim arith
  then show ?thesis by cases (simp_all add: digitVal_def digitChar_def)
qed

lemma atoi_itoa: "atoi (itoa n) = n"
proof (induction n rule: itoa.induct)
  case (1 n)
  show ?case
  proof (cases "n < 10")
    case True
    then show ?thesis by (subst itoa.simps) (simp add: atoi_def digitVal_digitChar)
  next
    case False
    then have "atoi (itoa (n div 10)) = n div 10" using 1 by simp
    then show ?thesis using False
      by (subst itoa.simps) (simp add: atoi_def digitVal_digitChar)
  qed
qed

lemma itoa_inj: "itoa m = itoa n \<Longrightarrow> m = n"
  using atoi_itoa by metis

lemma fillTargets_eq:
  "length targets = n \<Longrightarrow> i \<le> n \<Longrightarrow>
   fillTargets fd i n targets = take i targets @ map (newTarget fd) [i..<n]"
proof (induction fd i n targets rule: fillTargets.induct)
  case (1 fd i n targets)
  show ?case
  proof (cases "i < n")
    case True
    have "fillTargets fd i n targets = fillTargets fd (i + 1) n (targets[i := newTarget fd i])"
      using True by (subst fillTargets.simps) simp
    also have "\<dots> = take (i + 1) (targets[i := newTarget fd i]) @ map (newTarget fd) [i + 1..<n]"
      using 1 True by simp
    also have "take (i + 1) (targets[i := newTarget fd i]) = take i targets @ [newTarget fd i]"
      using True 1(2) by (simp add: take_Suc_conv_app_nth)
    finally show ?thesis using True by (simp add: upt_conv_Cons)
  next
    case False
    then show ?thesis using 1(2,3) by (subst fillTargets.simps) simp
  qed
qed

lemma generateChallenge_targets:
  "Targets (generateChallenge idDraw countDraw fd unixNow) = map (newTarget fd) [0..<5 + countDraw]"
  by (simp add: generateChallenge_def Let_def fillTargets_eq)

lemma newTarget_ID_inj: "ID (newTarget fd i) = ID (newTarget fd j) \<Longrightarrow> i = j"
  using itoa_inj[of "i + 1" "j + 1"] by (simp add: newTarget_def)

lemma distinct_generated_IDs: "distinct (map ID (map (newTarget fd) [0..<n]))"
  unfolding map_map by (rule distinct_map[THEN iffD2]) (auto intro!: inj_onI dest: newTarget_ID_inj)

lemma scaled_draw_inRange:
  assumes "unitInterval f" "b = of_int n" "0 < n" "n < 2 ^ 26"
  shows "inRange (fmul (fsub f (Fin (1/2))) (Fin (2 * b))) b"
proof -
  obtain r where f: "f = Fin r" "0 \<le> r" "r < 1" using assms(1) by (cases f) simp_all
  have "(1::real) < 2 ^ 53" by simp
  then have ot: "1 < overflow_threshold" using overflow_threshold_gt by linarith
  have "\<exists>y. rnd (r + - (1/2)) = Fin y \<and> - (1/2) \<le> y \<and> y \<le> 1/2"
    using f ot by (intro rnd_between) (simp_all add: round_real_half round_real_minus)
  then obtain y where y: "fsub f (Fin (1/2)) = Fin y" "- (1/2) \<le> y" "y \<le> 1/2"
    unfolding f fsub_def by auto
  have nb: "\<bar>n\<bar> < 2 ^ 53"
  proof -
    have "(2::int) ^ 26 < 2 ^ 53" by (rule power_strict_increasing) simp_all
    then show ?thesis using assms(3,4) by linarith
  qed
  have rb: "round_real b = b" unfolding assms(2) using nb by (rule round_real_of_int)
  have "\<bar>of_int n :: real\<bar> < 2 ^ 53" using nb
    by (metis of_int_abs of_int_less_numeral_power_cancel_iff)
  then have bo: "b < overflow_threshold" "- overflow_threshold < - b"
    unfolding assms(2) using overflow_threshold_gt by linarith+
  have b0: "0 < b" unfolding assms(2) using assms(3) by simp
  have "- (1/2) * (2 * b) \<le> y * (2 * b)" "y * (2 * b) \<le> 1/2 * (2 * b)"
    using y(2,3) b0 by (intro mult_right_mono; simp)+
  then have "- b \<le> y * (2 * b)" "y * (2 * b) \<le> b" by simp_all
  then have "\<exists>z. rnd (y * (2 * b)) = Fin z \<and> - b \<le> z \<and> z \<le> b"
    using rb bo by (intro rnd_between) (simp_all add: round_real_minus)
  then show ?thesis unfolding y(1) by auto
qed


subsection \<open>Sweeping\<close>

lemma cleanupLoop_apply:
  "cleanupLoop cutoff ids store k =
     (if k \<in> set ids
      then (case store k of
              None \<Rightarrow> None
            | Some d \<Rightarrow> if CreatedAt d < cutoff then None else Some d)
      else store k)"
  by (induction ids arbitrary: store) (auto split: option.splits)

lemma cleanupLoop_Some: "cleanupLoop cutoff ids store k = Some d \<Longrightarrow> store k = Some d"
  by (simp add: cleanupLoop_apply split: if_splits option.splits)

subsection \<open>Answers\<close>

lemma feedbackLoop_chosen_absent:
  "chosen \<notin> set (map ID targets) \<Longrightarrow>
   snd (feedbackLoop p expected chosen targets (c, d)) = d"
  by (induction targets arbitrary: c d) (auto simp: Let_def)




lemma answerResult_missed:
  assumes "ClosestID response \<noteq> ExpectedAnswer d"
  shows "answerResult response d elapsed =
     TargetMissed (ExpectedAnswer d) (ClosestID response)
       (fst (feedbackLoop (PlayerPos (Challenge d)) (ExpectedAnswer d) (ClosestID response)
               (Targets (Challenge d)) (Fin 0, Fin 0)))
       (snd (feedbackLoop (PlayerPos (Challenge d)) (ExpectedAnswer d) (ClosestID response)
               (Targets (Challenge d)) (Fin 0, Fin 0)))
       (TargetResponse.ChallengeID response)"
  using assms by (simp add: answerResult_def split: prod.splits)

subsection \<open>The sections of a submission, run in a row\<close>

lemma answerStep_thrice:
  "(let (h1, s1) = answerStep t1 store (Received body);
        (h2, s2) = answerStep now s1 h1;
        (h3, s3) = answerStep t3 s2 h2
    in (h3, s3)) =
   (Finished (fst (coordinatesAnswerHandler body now store)),
    snd (coordinatesAnswerHandler body now store))"
  by (cases body) (auto simp: coordinatesAnswerHandler_def Let_def split: option.splits)

subsection \<open>Issued records\<close>

lemma findClosestTarget_member:
  "targets \<noteq> [] \<Longrightarrow> findClosestTarget p targets \<in> set (map ID targets)"
  using findClosestTarget_spec[of targets p] by auto

lemma generated_wellFormed:
  "wellFormed \<lparr>Challenge = generateChallenge idDraw countDraw fd unixNow,
     ExpectedAnswer = findClosestTarget (PlayerPos (generateChallenge idDraw countDraw fd unixNow))
                        (Targets (generateChallenge idDraw countDraw fd unixNow)),
     CreatedAt = now\<rparr>"
proof -
  let ?c = "generateChallenge idDraw countDraw fd unixNow"
  have ne: "Targets ?c \<noteq> []" by (simp add: generateChallenge_targets)
  have mem: "findClosestTarget (PlayerPos ?c) (Targets ?c) \<in> set (map ID (Targets ?c))"
    using ne by (rule findClosestTarget_member)
  have "\<forall>t \<in> set (Targets ?c). ID t \<noteq> []"
    by (auto simp: generateChallenge_targets newTarget_def)
  then have "findClosestTarget (PlayerPos ?c) (Targets ?c) \<noteq> []" using mem by auto
  then show ?thesis using mem by (simp add: wellFormed_def)
qed

subsection \<open>Events\<close>

lemma answerStep_Some: "snd (answerStep now store h) k = Some d \<Longrightarrow> store k = Some d"
  by (cases "(now, store, h)" rule: answerStep.cases) (auto simp: Let_def split: if_splits)

lemma issued_record:
  "snd (coordinatesChallengeHandler idDraw countDraw fd unixNow now store) k = Some d \<Longrightarrow>
   store k = Some d \<or> (wellFormed d \<and> k = TargetChallenge.ChallengeID (Challenge d))"
  using generated_wellFormed[of idDraw countDraw fd unixNow now]
  by (auto simp: coordinatesChallengeHandler_def Let_def split: if_splits)

lemma fire_Some:
  "activeChallenges (fire e sys) k = Some d \<Longrightarrow>
   activeChallenges sys k = Some d \<or>
   (isIssue e \<and> wellFormed d \<and> k = TargetChallenge.ChallengeID (Challenge d))"
proof (cases e)
  case (AnswerStep i now)
  assume a: "activeChallenges (fire e sys) k = Some d"
  show ?thesis
  proof (cases "i < length (requests sys)")
    case True
    then have "snd (answerStep now (activeChallenges sys) (requests sys ! i)) k = Some d"
      using a AnswerStep by (simp add: Let_def split: prod.splits)
    then show ?thesis using answerStep_Some by blast
  next
    case False
    then show ?thesis using a AnswerStep by simp
  qed
next
  case (Sweep now ids)
  assume "activeChallenges (fire e sys) k = Some d"
  then show ?thesis using Sweep cleanupLoop_Some[of _ ids "activeChallenges sys" k d]
    by (simp add: cleanupExpiredChallenges_def)
next
  case (Issue idDraw countDraw fd unixNow now)
  assume "activeChallenges (fire e sys) k = Some d"
  then show ?thesis using Issue issued_record[of idDraw countDraw fd unixNow now "activeChallenges sys" k d]
    by auto
qed






text \<open>Every record the server stores has pairwise distinct target identifiers.\<close>

lemma issued_distinct_ids:
  "snd (coordinatesChallengeHandler idDraw countDraw fd unixNow now store) k = Some d \<Longrightarrow>
   store k = Some d \<or> distinct (map ID (Targets (Challenge d)))"
  using distinct_generated_IDs[of fd "5 + countDraw"]
  by (auto simp: coordinatesChallengeHandler_def Let_def generateChallenge_targets
      split: if_splits)

lemma fire_distinct_ids:
  assumes "activeChallenges (fire e sys) k = Some d"
  shows "activeChallenges sys k = Some d \<or> distinct (map ID (Targets (Challenge d)))"
proof (cases e)
  case (Issue idDraw countDraw fd unixNow now)
  then show ?thesis
    using assms issued_distinct_ids[of idDraw countDraw fd unixNow now "activeChallenges sys" k d]
    by simp
qed (use assms fire_Some[OF assms] in auto)

lemma reachable_distinct_ids:
  "(\<And>k d. activeChallenges sys k = Some d \<Longrightarrow> distinct (map ID (Targets (Challenge d)))) \<Longrightarrow>
   activeChallenges (run es sys) k = Some d \<Longrightarrow> distinct (map ID (Targets (Challenge d)))"
proof (induction es arbitrary: sys)
  case Nil
  then show ?case by simp
next
  case (Cons e es)
  have "distinct (map ID (Targets (Challenge d')))"
    if "activeChallenges (fire e sys) k' = Some d'" for k' d'
    using fire_distinct_ids[OF that] Cons.prems(1) by blast
  then show ?case using Cons.IH[of "fire e sys"] Cons.prems(2) by simp
qed

subsection \<open>The scenario\<close>

lemma scenario_expected: "ExpectedAnswer (scenarioRecord t) = ''T2''"
  by (simp add: scenarioRecord_def scenarioChallenge_def findClosestTarget_def distance3D_def
      fsub_def rnd_Ints)


lemma generateChallenge_example:
  "map ID (Targets (generateChallenge 42 2 fd 1700000000))
     = [''T1'', ''T2'', ''T3'', ''T4'', ''T5'', ''T6'', ''T7'']"
  "TargetChallenge.ChallengeID (generateChallenge 42 2 fd 1700000000) = ''TARG-42''"
proof -
  show "map ID (Targets (generateChallenge 42 2 fd 1700000000))
     = [''T1'', ''T2'', ''T3'', ''T4'', ''T5'', ''T6'', ''T7'']"
    by (simp add: generateChallenge_targets upt_conv_Cons newTarget_def itoa.simps digitChar_def)
  show "TargetChallenge.ChallengeID (generateChallenge 42 2 fd 1700000000) = ''TARG-42''"
    by (simp add: generateChallenge_def Let_def itoa.simps digitChar_def)
qed


section \<open>Claims\<close>

subsection \<open>Geometry\<close>

text \<open>
  Claim C8, as amended: for all points \<open>a\<close> and \<open>b\<close> whose coordinates are finite,
  \<^verbatim>\<open>distance3D(a, b) == distance3D(b, a)\<close> and \<^verbatim>\<open>distance3D(a, a) == 0\<close>. (A difference that
  overflows gives the distance \<open>PInf\<close> in both directions, and the two are equal.)
\<close>

theorem distance3D_symmetric_finite:
  assumes "finitePoint a" "finitePoint b"
  shows "feq (distance3D a b) (distance3D b a) \<and> feq (distance3D a a) (Fin 0)"
proof
  have "\<not> is_nan (distance3D a b)" using assms by (rule distance3D_not_nan)
  then show "feq (distance3D a b) (distance3D b a)"
    by (simp add: distance3D_swap[of b a] feq_refl_iff)
  show "feq (distance3D a a) (Fin 0)" using assms(1) by (simp add: distance3D_self)
qed

theorem distance3D_symmetric_finite_witness:
  "feq (distance3D \<lparr>ID = ''PLAYER'', X = Fin 0, Y = Fin 0, Z = Fin 0\<rparr>
                   \<lparr>ID = ''T1'', X = Fin 3, Y = Fin 4, Z = Fin 0\<rparr>)
       (distance3D \<lparr>ID = ''T1'', X = Fin 3, Y = Fin 4, Z = Fin 0\<rparr>
                   \<lparr>ID = ''PLAYER'', X = Fin 0, Y = Fin 0, Z = Fin 0\<rparr>) \<and>
   feq (distance3D \<lparr>ID = ''PLAYER'', X = Fin 0, Y = Fin 0, Z = Fin 0\<rparr>
                   \<lparr>ID = ''PLAYER'', X = Fin 0, Y = Fin 0, Z = Fin 0\<rparr>) (Fin 0)"
  using distance3D_symmetric_finite
    [of "\<lparr>ID = ''PLAYER'', X = Fin 0, Y = Fin 0, Z = Fin 0\<rparr>"
        "\<lparr>ID = ''T1'', X = Fin 3, Y = Fin 4, Z = Fin 0\<rparr>"]
  by (simp add: finitePoint_def)

text \<open>
  Claim C8 as stated ("for every pair of points", "for every point") fails at a point with
  a NaN coordinate: the NaN propagates through the subtraction, the product, the sum and
  the square root, and \<^verbatim>\<open>==\<close> on a NaN is false. Neither the distance of the point to
  itself equals 0, nor are the two distances between it and the origin equal.
\<close>

theorem distance3D_nan_counterexample:
  "\<not> feq (distance3D \<lparr>ID = ''A'', X = NaN, Y = Fin 0, Z = Fin 0\<rparr>
                     \<lparr>ID = ''A'', X = NaN, Y = Fin 0, Z = Fin 0\<rparr>) (Fin 0) \<and>
   \<not> feq (distance3D \<lparr>ID = ''A'', X = NaN, Y = Fin 0, Z = Fin 0\<rparr>
                     \<lparr>ID = ''PLAYER'', X = Fin 0, Y = Fin 0, Z = Fin 0\<rparr>)
           (distance3D \<lparr>ID = ''PLAYER'', X = Fin 0, Y = Fin 0, Z = Fin 0\<rparr>
                       \<lparr>ID = ''A'', X = NaN, Y = Fin 0, Z = Fin 0\<rparr>)"
  by (simp add: distance3D_def fsub_def)

lemma distance3D_example:
  "distance3D \<lparr>ID = ''PLAYER'', X = Fin 0, Y = Fin 0, Z = Fin 0\<rparr>
              \<lparr>ID = ''T1'', X = Fin 3, Y = Fin 4, Z = Fin 0\<rparr> = Fin 5"
  by (simp add: distance3D_def fsub_def rnd_Ints)


lemma findClosestTarget_example:
  "findClosestTarget \<lparr>ID = ''PLAYER'', X = Fin 0, Y = Fin 0, Z = Fin 0\<rparr>
     [\<lparr>ID = ''T1'', X = Fin 10, Y = Fin 0, Z = Fin 0\<rparr>,
      \<lparr>ID = ''T2'', X = Fin 3, Y = Fin 0, Z = Fin 0\<rparr>,
      \<lparr>ID = ''T3'', X = Fin 0, Y = Fin 3, Z = Fin 0\<rparr>] = ''T2''"
  by (simp add: findClosestTarget_def distance3D_def fsub_def rnd_Ints)


subsection \<open>Challenge generation\<close>

text \<open>
  Claim C6: whatever the random source draws (\<^verbatim>\<open>rand.Intn(4)\<close> below 4, every
  \<^verbatim>\<open>rand.Float64()\<close> in the half-open interval from 0 to 1), the generated challenge has
  between 5 and 8 targets, their identifiers are pairwise distinct, and every target has
  finite coordinates with x and y between -100 and 100 and z between -50 and 50, after the
  rounding of the subtraction and of the product.
\<close>

theorem generateChallenge_shape:
  assumes "countDraw < 4" and "\<forall>k. unitInterval (floatDraw k)"
  shows "5 \<le> length (Targets (generateChallenge idDraw countDraw floatDraw unixNow)) \<and>
         length (Targets (generateChallenge idDraw countDraw floatDraw unixNow)) \<le> 8 \<and>
         distinct (map ID (Targets (generateChallenge idDraw countDraw floatDraw unixNow))) \<and>
         (\<forall>t \<in> set (Targets (generateChallenge idDraw countDraw floatDraw unixNow)).
            inRange (X t) 100 \<and> inRange (Y t) 100 \<and> inRange (Z t) 50)"
proof -
  have r100: "inRange (fmul (fsub (floatDraw k) (Fin (1/2))) (Fin 200)) 100" for k
    using scaled_draw_inRange[of "floatDraw k" 100 100] assms(2) by simp
  have r50: "inRange (fmul (fsub (floatDraw k) (Fin (1/2))) (Fin 100)) 50" for k
    using scaled_draw_inRange[of "floatDraw k" 50 50] assms(2) by simp
  have "inRange (X (newTarget floatDraw i)) 100 \<and> inRange (Y (newTarget floatDraw i)) 100 \<and>
        inRange (Z (newTarget floatDraw i)) 50" for i
    by (simp add: newTarget_def r100 r50)
  then show ?thesis
    using assms(1) distinct_generated_IDs[of floatDraw "5 + countDraw"]
    by (simp add: generateChallenge_targets)
qed

theorem generateChallenge_shape_witness:
  "5 \<le> length (Targets (generateChallenge 42 2 (\<lambda>k. Fin (1/4)) 1700000000)) \<and>
   length (Targets (generateChallenge 42 2 (\<lambda>k. Fin (1/4)) 1700000000)) \<le> 8 \<and>
   distinct (map ID (Targets (generateChallenge 42 2 (\<lambda>k. Fin (1/4)) 1700000000))) \<and>
   list_all (\<lambda>t. inRange (X t) 100 \<and> inRange (Y t) 100 \<and> inRange (Z t) 50)
     (Targets (generateChallenge 42 2 (\<lambda>k. Fin (1/4)) 1700000000))"
  using generateChallenge_shape[of 2 "\<lambda>k. Fin (1/4)" 42 1700000000]
  by (simp add: list_all_iff)

subsection \<open>Sweeping\<close>

text \<open>
  Claim C5: after \<^verbatim>\<open>cleanupExpiredChallenges\<close> has run at the instant \<open>now\<close>, visiting
  every key of the map, every record created before \<open>now\<close> minus 2 seconds is absent,
  every other record is still stored unchanged, and no key has appeared.
\<close>

theorem cleanupExpiredChallenges_sweeps:
  assumes "dom store \<subseteq> set ids"
  shows "(\<forall>k d. store k = Some d \<and> CreatedAt d < now - 2 * Second \<longrightarrow>
            cleanupExpiredChallenges now ids store k = None) \<and>
         (\<forall>k d. store k = Some d \<and> \<not> CreatedAt d < now - 2 * Second \<longrightarrow>
            cleanupExpiredChallenges now ids store k = Some d) \<and>
         (\<forall>k. store k = None \<longrightarrow> cleanupExpiredChallenges now ids store k = None)"
  using assms by (auto simp: cleanupExpiredChallenges_def cleanupLoop_apply)

theorem cleanupExpiredChallenges_sweeps_witness:
  "cleanupExpiredChallenges 2500000000 [''TARG-8'', ''TARG-7'']
     [''TARG-7'' \<mapsto> scenarioRecord 0, ''TARG-8'' \<mapsto> scenarioRecord 1500000000] ''TARG-7'' = None \<and>
   cleanupExpiredChallenges 2500000000 [''TARG-8'', ''TARG-7'']
     [''TARG-7'' \<mapsto> scenarioRecord 0, ''TARG-8'' \<mapsto> scenarioRecord 1500000000] ''TARG-8''
     = Some (scenarioRecord 1500000000)"
  using cleanupExpiredChallenges_sweeps
    [of "[''TARG-7'' \<mapsto> scenarioRecord 0, ''TARG-8'' \<mapsto> scenarioRecord 1500000000]"
        "[''TARG-8'', ''TARG-7'']" 2500000000]
  by (simp add: Second_def scenarioRecord_def)

subsection \<open>Submissions\<close>

text \<open>
  Claim C7: a submission whose body the decoder rejects is answered 400 "Invalid JSON" and
  the store is left as it was, both for the handler run as a whole and for each of its
  sections.
\<close>

theorem malformed_submission_rejected:
  "coordinatesAnswerHandler None now store = (InvalidJSON, store) \<and>
   answerStep now store (Received None) = (Finished InvalidJSON, store) \<and>
   answerStep now store (Finished InvalidJSON) = (Finished InvalidJSON, store)"
  by (simp add: coordinatesAnswerHandler_def)



text \<open>
  Claim C10: within the deadline, a chosen id that is no target of the challenge and is not
  the expected answer is answered "TARGET MISSED", and the chosen distance reported is
  the zero value of \<^verbatim>\<open>chosenDistance\<close>, which the loop never assigns.
\<close>

theorem unknown_target_distance_zero:
  assumes "store (TargetResponse.ChallengeID response) = Some d"
    and "now - CreatedAt d \<le> Second"
    and "ClosestID response \<notin> set (map ID (Targets (Challenge d)))"
    and "ClosestID response \<noteq> ExpectedAnswer d"
  shows "\<exists>correctDistance.
           fst (coordinatesAnswerHandler (Some response) now store) =
             TargetMissed (ExpectedAnswer d) (ClosestID response) correctDistance (Fin 0)
               (TargetResponse.ChallengeID response)"
  using assms
  by (simp add: coordinatesAnswerHandler_def answerResult_missed feedbackLoop_chosen_absent)

theorem unknown_target_distance_zero_witness:
  "\<exists>correctDistance.
     fst (coordinatesAnswerHandler
            (Some \<lparr>TargetResponse.ChallengeID = ''TARG-7'', ClosestID = ''T9''\<rparr>)
            400000000 [''TARG-7'' \<mapsto> scenarioRecord 0])
       = TargetMissed ''T2'' ''T9'' correctDistance (Fin 0) ''TARG-7''"
proof -
  have c: "Challenge (scenarioRecord 0) = scenarioChallenge" "CreatedAt (scenarioRecord 0) = 0"
    by (simp_all add: scenarioRecord_def)
  show ?thesis
    using unknown_target_distance_zero
      [of "[''TARG-7'' \<mapsto> scenarioRecord 0]"
          "\<lparr>TargetResponse.ChallengeID = ''TARG-7'', ClosestID = ''T9''\<rparr>"
          "scenarioRecord 0" 400000000]
    by (simp add: c Second_def scenario_expected scenarioChallenge_def)
qed




subsection \<open>Stored records\<close>



subsection \<open>Submissions racing for one record\<close>




end
